theory Spec2Isabelle
  imports Main
begin

section \<open>Data model\<close>

text \<open>
  The trivia API of \<^verbatim>\<open>backend/flaskr/__init__.py\<close>: seven request handlers over a store of
  questions and categories, one pagination helper and three error handlers.

  JSON values are what \<^verbatim>\<open>jsonify\<close> serialises; a Python dict is an association list
  read with \<open>map_of\<close>.
\<close>

datatype json =
    JNull
  | JBool bool
  | JInt int
  | JStr string
  | JList "json list"
  | JObj "(string \<times> json) list"

text \<open>
  Modelled from the spec: the \<^verbatim>\<open>Question\<close> and \<^verbatim>\<open>Category\<close> classes of \<^verbatim>\<open>models.py\<close>
  (imported by the source, absent from it). The spec's data model gives a question an
  integer id, the question and answer texts, an integer category and an integer
  difficulty; a category has an integer id and a type label.
\<close>

record question =
  q_id :: int
  q_question :: string
  q_answer :: string
  q_category :: int
  q_difficulty :: int

record category =
  c_id :: int
  c_type :: string

text \<open>
  The store is the two tables, each in the row order in which an unordered query returns
  it, and the next id the store assigns.
\<close>

record store =
  questions :: "question list"
  categories :: "category list"
  next_id :: int

text \<open>
  Modelled from the spec: \<^verbatim>\<open>Question.format\<close>, the serialised form of a question with
  all five fields.
\<close>

definition format :: "question \<Rightarrow> json" where
  "format q = JObj [(''id'', JInt (q_id q)),
                    (''question'', JStr (q_question q)),
                    (''answer'', JStr (q_answer q)),
                    (''category'', JInt (q_category q)),
                    (''difficulty'', JInt (q_difficulty q))]"

text \<open>
  Modelled from the spec: \<^verbatim>\<open>Question.insert\<close>. The store assigns the id; the flag says
  whether the store accepts the commit, and a refused commit leaves the store as it was.
\<close>

definition question_insert ::
  "bool \<Rightarrow> string \<Rightarrow> string \<Rightarrow> int \<Rightarrow> int \<Rightarrow> store \<Rightarrow> (question \<times> store) option" where
  "question_insert commit_ok qu an ca di db =
     (if commit_ok
      then (let q = \<lparr>q_id = next_id db, q_question = qu, q_answer = an,
                     q_category = ca, q_difficulty = di\<rparr>
            in Some (q, db\<lparr>questions := questions db @ [q], next_id := next_id db + 1\<rparr>))
      else None)"

text \<open>
  Modelled from the spec: \<^verbatim>\<open>Question.delete\<close>, which removes the row of the object's id
  and commits.
\<close>

definition question_delete :: "bool \<Rightarrow> question \<Rightarrow> store \<Rightarrow> store option" where
  "question_delete commit_ok q db =
     (if commit_ok
      then Some (db\<lparr>questions := filter (\<lambda>r. q_id r \<noteq> q_id q) (questions db)\<rparr>)
      else None)"

text \<open>The query \<^verbatim>\<open>Question.query.order_by(Question.id).all()\<close>.\<close>

definition order_by_id :: "question list \<Rightarrow> question list" where
  "order_by_id qs = sort_key q_id qs"

subsection \<open>Requests\<close>

text \<open>
  A request carries the \<^verbatim>\<open>page\<close> query argument after the framework's conversion
  \<^verbatim>\<open>request.args.get('page', 1, type=int)\<close> has looked it up (\<open>None\<close>: the key is absent or
  is not an integer literal, so the default is taken) and the JSON object of the body. A
  key of the body is \<open>None\<close> when the object does not have it.
\<close>

record quiz_category =
  qc_id :: int

record body =
  b_question :: "string option"
  b_answer :: "string option"
  b_category :: "int option"
  b_difficulty :: "int option"
  b_searchTerm :: "string option"
  b_quiz_category :: "quiz_category option"
  b_previous_questions :: "int list option"

record request =
  args_page :: "int option"
  get_json :: body

definition no_body :: body where
  "no_body = \<lparr>b_question = None, b_answer = None, b_category = None, b_difficulty = None,
               b_searchTerm = None, b_quiz_category = None, b_previous_questions = None\<rparr>"

subsection \<open>Errors\<close>

text \<open>\<^verbatim>\<open>abort(400)\<close>, \<^verbatim>\<open>abort(422)\<close> and \<^verbatim>\<open>abort(404)\<close>.\<close>

datatype error = BadRequest | Unprocessable | NotFound

section \<open>Pagination\<close>

definition QUESTIONS_PER_PAGE :: int where
  "QUESTIONS_PER_PAGE = 10"

text \<open>
  Python's \<^verbatim>\<open>xs[start:end]\<close>: a negative bound counts from the end of the list, and both
  bounds are clamped to the list.
\<close>

definition py_slice :: "'a list \<Rightarrow> int \<Rightarrow> int \<Rightarrow> 'a list" where
  "py_slice xs start end =
     (let n = int (length xs);
          s = (if start < 0 then max 0 (start + n) else min start n);
          e = (if end < 0 then max 0 (end + n) else min end n)
      in take (nat (e - s)) (drop (nat s) xs))"

text \<open>\<^verbatim>\<open>request.args.get('page', 1, type=int)\<close>.\<close>

definition args_get_page :: "request \<Rightarrow> int" where
  "args_get_page request = (case args_page request of None \<Rightarrow> 1 | Some p \<Rightarrow> p)"

definition paginate_questions :: "request \<Rightarrow> question list \<Rightarrow> json list" where
  "paginate_questions request selection =
     (let page = args_get_page request;
          start = (page - 1) * QUESTIONS_PER_PAGE;
          end = start + QUESTIONS_PER_PAGE;
          questions = map format selection;
          current_questions = py_slice questions start end
      in current_questions)"

section \<open>Search patterns\<close>

text \<open>
  The filter \<^verbatim>\<open>Question.question.ilike(pattern)\<close> compares the lower-cased column with the
  lower-cased pattern by the store's \<^verbatim>\<open>LIKE\<close>. In a pattern \<^verbatim>\<open>%\<close> stands for any run of
  characters and \<^verbatim>\<open>_\<close> for any one character. The source passes no \<^verbatim>\<open>ESCAPE\<close> clause, so
  the store's default escape character, the backslash, applies: the character after a
  backslash stands for itself. A pattern that ends in a lone backslash is an error of the
  store; it matches nothing here, and the handler never builds one, since its pattern ends
  in \<^verbatim>\<open>%\<close> (\<open>search_pattern_escapes\<close> below).

  A character is a code point below 256. Lower-casing folds the letters of that range:
  A to Z, and the accented capitals from 192 to 222 except the multiplication sign 215.
\<close>

definition lower :: "char \<Rightarrow> char" where
  "lower c =
     (let n = (of_char c :: nat)
      in if (65 \<le> n \<and> n \<le> 90) \<or> (192 \<le> n \<and> n \<le> 222 \<and> n \<noteq> 215)
         then char_of (n + 32) else c)"

fun like :: "string \<Rightarrow> string \<Rightarrow> bool" where
  "like [] [] = True"
| "like (c # s) [] = False"
| "like [] (p # ps) = (p = CHR ''%'' \<and> like [] ps)"
| "like (c # s) (p # ps) =
     (if p = CHR 0x5C then (case ps of [] \<Rightarrow> False | e # es \<Rightarrow> e = c \<and> like s es)
      else if p = CHR ''%'' then like (c # s) ps \<or> like s (p # ps)
      else (p = CHR ''_'' \<or> p = c) \<and> like s ps)"

text \<open>A pattern in which a backslash has no character after it.\<close>

fun ends_in_escape :: "string \<Rightarrow> bool" where
  "ends_in_escape [] = False"
| "ends_in_escape [p] = (p = CHR 0x5C)"
| "ends_in_escape (p # e # ps) =
     (if p = CHR 0x5C then ends_in_escape ps else ends_in_escape (e # ps))"

definition ilike :: "string \<Rightarrow> string \<Rightarrow> bool" where
  "ilike column pattern = like (map lower column) (map lower pattern)"

text \<open>
  The spec's reading of the search, for comparison with \<open>ilike\<close>: the text contains the
  term as a substring, letter case apart.
\<close>

fun starts_with :: "string \<Rightarrow> string \<Rightarrow> bool" where
  "starts_with s [] = True"
| "starts_with [] (b # t) = False"
| "starts_with (a # s) (b # t) = (a = b \<and> starts_with s t)"

fun contains :: "string \<Rightarrow> string \<Rightarrow> bool" where
  "contains [] t = (t = [])"
| "contains (a # s) t = (starts_with (a # s) t \<or> contains s t)"

definition spec_contains_ci :: "string \<Rightarrow> string \<Rightarrow> bool" where
  "spec_contains_ci text' term' = contains (map lower text') (map lower term')"

text \<open>
  The f-string \<^verbatim>\<open>f'%{search_term}%'\<close>: Python formats \<^verbatim>\<open>None\<close> as the text
  \<^verbatim>\<open>None\<close>.
\<close>

definition search_pattern :: "string option \<Rightarrow> string" where
  "search_pattern search_term =
     ''%'' @ (case search_term of None \<Rightarrow> ''None'' | Some t \<Rightarrow> t) @ ''%''"

section \<open>Request handlers\<close>

text \<open>
  A handler returns the JSON of its success response, or the error it aborts with. The
  two handlers that write also return the store they leave behind.
\<close>

definition get_questions :: "request \<Rightarrow> store \<Rightarrow> error + json" where
  "get_questions request db =
     (let selection = order_by_id (questions db);
          current_questions = paginate_questions request selection
      in if length current_questions = 0 then Inl NotFound
         else Inr (JObj [(''success'', JBool True),
                         (''questions'', JList current_questions),
                         (''total_questions'', JInt (int (length (questions db))))]))"

text \<open>
  \<^verbatim>\<open>one_or_none()\<close> yields the row, \<^verbatim>\<open>None\<close> when there is none (so that
  \<^verbatim>\<open>question.delete()\<close> raises) and raises on several rows; the handler catches every
  exception and aborts with 422.
\<close>

definition delete_question :: "bool \<Rightarrow> int \<Rightarrow> request \<Rightarrow> store \<Rightarrow> (error + json) \<times> store" where
  "delete_question commit_ok question_id request db =
     (case filter (\<lambda>q. q_id q = question_id) (questions db) of
        [question] \<Rightarrow>
          (case question_delete commit_ok question db of
             None \<Rightarrow> (Inl Unprocessable, db)
           | Some db' \<Rightarrow>
               (let selection = order_by_id (questions db');
                    current_questions = paginate_questions request selection
                in (Inr (JObj [(''success'', JBool True),
                               (''deleted'', JInt question_id),
                               (''questions'', JList current_questions),
                               (''total_questions'', JInt (int (length (questions db'))))]),
                    db')))
      | _ \<Rightarrow> (Inl Unprocessable, db))"

text \<open>
  The four keys are read with \<^verbatim>\<open>body.get\<close> and their presence is tested in the order
  \<^verbatim>\<open>question\<close>, \<^verbatim>\<open>answer\<close>, \<^verbatim>\<open>difficulty\<close>, \<^verbatim>\<open>category\<close>; a missing key aborts with 422,
  and so does every exception of the insert.
\<close>

definition create_question :: "bool \<Rightarrow> request \<Rightarrow> store \<Rightarrow> (error + json) \<times> store" where
  "create_question commit_ok request db =
     (let body = get_json request in
      case (b_question body, b_answer body, b_difficulty body, b_category body) of
        (Some new_question, Some new_answer, Some new_difficulty, Some new_category) \<Rightarrow>
          (case question_insert commit_ok new_question new_answer new_category new_difficulty db of
             None \<Rightarrow> (Inl Unprocessable, db)
           | Some (question, db') \<Rightarrow>
               (let selection = order_by_id (questions db');
                    current_questions = paginate_questions request selection
                in (Inr (JObj [(''success'', JBool True),
                               (''created'', JInt (q_id question)),
                               (''questions'', JList current_questions),
                               (''total_questions'', JInt (int (length (questions db'))))]),
                    db')))
      | _ \<Rightarrow> (Inl Unprocessable, db))"

text \<open>
  The search aborts with 404 inside its \<^verbatim>\<open>try\<close>; the \<^verbatim>\<open>except\<close> clause catches that abort
  and aborts with 404 again. The check is on the matches, not on the slice of the page.
\<close>

definition search_questions :: "request \<Rightarrow> store \<Rightarrow> error + json" where
  "search_questions request db =
     (let body = get_json request;
          search_term = b_searchTerm body;
          questions' = filter (\<lambda>q. ilike (q_question q) (search_pattern search_term)) (questions db);
          current_questions = paginate_questions request questions'
      in if length questions' = 0 then Inl NotFound
         else Inr (JObj [(''success'', JBool True),
                         (''questions'', JList current_questions),
                         (''total_questions'', JInt (int (length (questions db))))]))"

text \<open>
  \<^verbatim>\<open>one_or_none()\<close> on the categories: no row aborts with 404, several rows raise, which
  the \<^verbatim>\<open>except\<close> clause turns into 404 as well.
\<close>

definition get_questions_by_category :: "int \<Rightarrow> request \<Rightarrow> store \<Rightarrow> error + json" where
  "get_questions_by_category id' request db =
     (case filter (\<lambda>c. c_id c = id') (categories db) of
        [] \<Rightarrow> Inl NotFound
      | [category] \<Rightarrow>
          (let questions' = filter (\<lambda>q. q_category q = id') (questions db);
               current_questions = paginate_questions request questions'
           in Inr (JObj [(''success'', JBool True),
                         (''questions'', JList current_questions),
                         (''total_questions'', JInt (int (length questions'))),
                         (''current_category'', JStr (c_type category))]))
      | _ \<Rightarrow> Inl NotFound)"

text \<open>
  The candidates of the quiz, and the handler. \<open>randrange\<close> stands for
  \<^verbatim>\<open>random.randrange(0, n)\<close>, whose result lies in \<open>{0..<n}\<close>.
\<close>

definition quiz_candidates :: "quiz_category \<Rightarrow> int list \<Rightarrow> store \<Rightarrow> question list" where
  "quiz_candidates quiz_category previous_questions db =
     (if qc_id quiz_category = 0
      then filter (\<lambda>q. q_id q \<notin> set previous_questions) (questions db)
      else filter (\<lambda>q. q_id q \<notin> set previous_questions)
             (filter (\<lambda>q. q_category q = qc_id quiz_category) (questions db)))"

definition play_quiz :: "(nat \<Rightarrow> nat) \<Rightarrow> request \<Rightarrow> store \<Rightarrow> error + json" where
  "play_quiz randrange request db =
     (let body = get_json request in
      case (b_quiz_category body, b_previous_questions body) of
        (Some quiz_category, Some previous_questions) \<Rightarrow>
          (let questions' = quiz_candidates quiz_category previous_questions db;
               next_question = (if length questions' > 0
                                then format (questions' ! randrange (length questions'))
                                else JNull)
           in Inr (JObj [(''success'', JBool True), (''question'', next_question)]))
      | _ \<Rightarrow> Inl BadRequest)"

section \<open>Error handlers\<close>

definition not_found :: "json \<times> int" where
  "not_found = (JObj [(''success'', JBool False), (''error'', JInt 404),
                      (''message'', JStr ''resource not found'')], 404)"

definition unprocessable :: "json \<times> int" where
  "unprocessable = (JObj [(''success'', JBool False), (''error'', JInt 422),
                          (''message'', JStr ''unprocessable'')], 422)"

definition bad_request :: "json \<times> int" where
  "bad_request = (JObj [(''success'', JBool False), (''error'', JInt 400),
                        (''message'', JStr ''bad request'')], 400)"

text \<open>The registered handler of each abort, and the response the client receives.\<close>

fun errorhandler :: "error \<Rightarrow> json \<times> int" where
  "errorhandler NotFound = not_found"
| "errorhandler Unprocessable = unprocessable"
| "errorhandler BadRequest = bad_request"

fun response :: "error + json \<Rightarrow> json \<times> int" where
  "response (Inl e) = errorhandler e"
| "response (Inr j) = (j, 200)"

text \<open>The value of a key of a success response.\<close>

fun json_field :: "string \<Rightarrow> error + json \<Rightarrow> json option" where
  "json_field k (Inr (JObj kvs)) = map_of kvs k"
| "json_field k _ = None"

section \<open>Example data\<close>

definition trivia :: "int \<Rightarrow> string \<Rightarrow> int \<Rightarrow> question" where
  "trivia i text' cat =
     \<lparr>q_id = i, q_question = text', q_answer = ''answer'', q_category = cat, q_difficulty = 1\<rparr>"

definition example_categories :: "category list" where
  "example_categories = [\<lparr>c_id = 1, c_type = ''Science''\<rparr>, \<lparr>c_id = 2, c_type = ''Art''\<rparr>,
                         \<lparr>c_id = 3, c_type = ''History''\<rparr>]"

definition twelve :: store where
  "twelve = \<lparr>questions = map (\<lambda>i. trivia i ''q'' 1) [3, 1, 2, 4, 5, 6, 7, 8, 9, 10, 11, 12],
             categories = example_categories, next_id = 13\<rparr>"

definition three :: store where
  "three = \<lparr>questions = [trivia 1 ''What is the Title of the book?'' 2,
                          trivia 2 ''Who discovered penicillin?'' 1,
                          trivia 3 ''abc'' 1],
            categories = example_categories, next_id = 4\<rparr>"

definition page_request :: "int option \<Rightarrow> request" where
  "page_request p = \<lparr>args_page = p, get_json = no_body\<rparr>"

definition new_question_body :: body where
  "new_question_body = no_body\<lparr>b_question := Some ''Q1'', b_answer := Some ''A1'',
                                  b_category := Some 1, b_difficulty := Some 3\<rparr>"

definition create_request :: "int option \<Rightarrow> request" where
  "create_request p = \<lparr>args_page = p, get_json = new_question_body\<rparr>"

definition no_category_request :: request where
  "no_category_request = \<lparr>args_page = None, get_json = new_question_body\<lparr>b_category := None\<rparr>\<rparr>"

definition four :: store where
  "four = three\<lparr>questions := questions three @ [trivia 4 ''Are none of these right?'' 2],
                next_id := 5\<rparr>"

definition search_request :: "string option \<Rightarrow> request" where
  "search_request t = \<lparr>args_page = None, get_json = no_body\<lparr>b_searchTerm := t\<rparr>\<rparr>"

definition quiz_request :: "int \<Rightarrow> int list \<Rightarrow> request" where
  "quiz_request c prev =
     \<lparr>args_page = None,
      get_json = no_body\<lparr>b_quiz_category := Some \<lparr>qc_id = c\<rparr>,
                         b_previous_questions := Some prev\<rparr>\<rparr>"

text \<open>An outcome of the generator: the draw is always the first index.\<close>

definition draw_first :: "nat \<Rightarrow> nat" where
  "draw_first n = 0"

section \<open>Properties of the pagination helper\<close>

lemma py_slice_nonneg:
  "0 \<le> s \<Longrightarrow> py_slice xs s (s + 10) = take 10 (drop (nat s) xs)"
  by (auto simp: py_slice_def Let_def min_def max_def)

lemma py_slice_length_le:
  "length (py_slice xs s (s + 10)) \<le> 10"
  by (auto simp: py_slice_def Let_def min_def max_def)

lemma paginate_questions_py_slice:
  "paginate_questions request selection =
     py_slice (map format selection) ((args_get_page request - 1) * 10)
       ((args_get_page request - 1) * 10 + 10)"
  by (simp add: paginate_questions_def QUESTIONS_PER_PAGE_def Let_def)

lemma paginate_questions_take_drop:
  assumes "1 \<le> args_get_page request"
  shows "paginate_questions request selection =
           take 10 (drop (nat ((args_get_page request - 1) * 10)) (map format selection))"
proof -
  have "0 \<le> (args_get_page request - 1) * 10"
    using assms by simp
  then show ?thesis
    by (simp only: paginate_questions_py_slice py_slice_nonneg)
qed

lemma paginate_questions_length:
  assumes "1 \<le> args_get_page request"
  shows "int (length (paginate_questions request selection)) =
           min 10 (max 0 (int (length selection) - (args_get_page request - 1) * 10))"
proof -
  have "0 \<le> (args_get_page request - 1) * 10"
    using assms by simp
  then show ?thesis
    unfolding paginate_questions_take_drop [OF assms]
    by (simp add: min_def max_def) linarith
qed

lemma paginate_questions_page:
  assumes "page = (case args_page request of None \<Rightarrow> 1 | Some p \<Rightarrow> p)"
  shows "paginate_questions request selection =
           py_slice (map format selection) ((page - 1) * 10) ((page - 1) * 10 + 10)"
    and "1 \<le> page \<Longrightarrow> paginate_questions request selection =
           take 10 (drop (nat ((page - 1) * 10)) (map format selection))"
    and "1 \<le> page \<Longrightarrow> int (length (paginate_questions request selection)) =
           min 10 (max 0 (int (length selection) - (page - 1) * 10))"
    and "page = 0 \<Longrightarrow> paginate_questions request selection = []"
proof -
  have p: "page = args_get_page request"
    using assms by (simp add: args_get_page_def)
  show "paginate_questions request selection =
           py_slice (map format selection) ((page - 1) * 10) ((page - 1) * 10 + 10)"
    unfolding p by (rule paginate_questions_py_slice)
  show "paginate_questions request selection =
           take 10 (drop (nat ((page - 1) * 10)) (map format selection))" if "1 \<le> page"
    using that unfolding p by (rule paginate_questions_take_drop)
  show "int (length (paginate_questions request selection)) =
           min 10 (max 0 (int (length selection) - (page - 1) * 10))" if "1 \<le> page"
    using that unfolding p by (rule paginate_questions_length)
  show "paginate_questions request selection = []" if "page = 0"
    using that p by (simp add: paginate_questions_py_slice py_slice_def)
qed

text \<open>
  C1. The pagination helper takes the page number from the \<^verbatim>\<open>page\<close> argument of the
  request: the number given there, and 1 when the argument is absent. For that page \<open>p\<close> it
  returns the Python slice \<^verbatim>\<open>[(p-1)*10 : (p-1)*10+10]\<close> of the formatted questions, which
  never has more than 10 items. For a page number from 1 on the slice is the 10 items
  after the first \<open>(p-1)*10\<close>, and its length is \<open>min(10, max(0, total - (p-1)*10))\<close>; for
  page 0 it is empty.
\<close>

theorem paginate_questions_slice:
  assumes "page = (case args_page request of None \<Rightarrow> 1 | Some p \<Rightarrow> p)"
  shows "paginate_questions request selection =
           py_slice (map format selection) ((page - 1) * 10) ((page - 1) * 10 + 10)
       \<and> length (paginate_questions request selection) \<le> 10
       \<and> (1 \<le> page \<longrightarrow>
            paginate_questions request selection =
              take 10 (drop (nat ((page - 1) * 10)) (map format selection))
            \<and> int (length (paginate_questions request selection)) =
                min 10 (max 0 (int (length selection) - (page - 1) * 10)))
       \<and> (page = 0 \<longrightarrow> paginate_questions request selection = [])"
proof (intro conjI impI)
  show "paginate_questions request selection =
           py_slice (map format selection) ((page - 1) * 10) ((page - 1) * 10 + 10)"
    using assms by (rule paginate_questions_page)
  show "length (paginate_questions request selection) \<le> 10"
    by (simp only: paginate_questions_py_slice py_slice_length_le)
  show "paginate_questions request selection =
          take 10 (drop (nat ((page - 1) * 10)) (map format selection))"
    if "1 \<le> page"
    using assms that by (rule paginate_questions_page)
  show "int (length (paginate_questions request selection)) =
            min 10 (max 0 (int (length selection) - (page - 1) * 10))"
    if "1 \<le> page"
    using assms that by (rule paginate_questions_page)
  show "paginate_questions request selection = []" if "page = 0"
    using assms that by (rule paginate_questions_page)
qed

theorem paginate_questions_slice_witness:
  "(2 :: int) = (case args_page (page_request (Some 2)) of None \<Rightarrow> 1 | Some p \<Rightarrow> p)
   \<and> paginate_questions (page_request (Some 2)) (order_by_id (questions twelve)) =
       [format (trivia 11 ''q'' 1), format (trivia 12 ''q'' 1)]
   \<and> int (length (paginate_questions (page_request (Some 2)) (order_by_id (questions twelve)))) =
       min 10 (max 0 (int (length (order_by_id (questions twelve))) - (2 - 1) * 10))
   \<and> (1 :: int) = (case args_page (page_request None) of None \<Rightarrow> 1 | Some p \<Rightarrow> p)
   \<and> paginate_questions (page_request None) (questions three) =
       [format (trivia 1 ''What is the Title of the book?'' 2),
        format (trivia 2 ''Who discovered penicillin?'' 1),
        format (trivia 3 ''abc'' 1)]
   \<and> (0 :: int) = (case args_page (page_request (Some 0)) of None \<Rightarrow> 1 | Some p \<Rightarrow> p)
   \<and> paginate_questions (page_request (Some 0)) (order_by_id (questions twelve)) = []"
proof -
  have h2: "(2 :: int) = (case args_page (page_request (Some 2)) of None \<Rightarrow> 1 | Some p \<Rightarrow> p)"
    and h1: "(1 :: int) = (case args_page (page_request None) of None \<Rightarrow> 1 | Some p \<Rightarrow> p)"
    and h0: "(0 :: int) = (case args_page (page_request (Some 0)) of None \<Rightarrow> 1 | Some p \<Rightarrow> p)"
    by (simp_all add: page_request_def)
  have e2: "take 10 (drop (nat ((2 - 1) * 10)) (map format (order_by_id (questions twelve)))) =
      [format (trivia 11 ''q'' 1), format (trivia 12 ''q'' 1)]"
    by code_simp
  have e1: "take 10 (drop (nat ((1 - 1) * 10)) (map format (questions three))) =
      [format (trivia 1 ''What is the Title of the book?'' 2),
       format (trivia 2 ''Who discovered penicillin?'' 1),
       format (trivia 3 ''abc'' 1)]"
    by code_simp
  have l2: "(1 :: int) \<le> 2" and l1: "(1 :: int) \<le> 1" and z: "(0 :: int) = 0"
    by simp_all
  note t2 = paginate_questions_slice [OF h2, of "order_by_id (questions twelve)"]
  note t1 = paginate_questions_slice [OF h1, of "questions three"]
  note t0 = paginate_questions_slice [OF h0, of "order_by_id (questions twelve)"]
  from t2 l2 have "paginate_questions (page_request (Some 2)) (order_by_id (questions twelve)) =
       take 10 (drop (nat ((2 - 1) * 10)) (map format (order_by_id (questions twelve))))"
    by blast
  then have a: "paginate_questions (page_request (Some 2)) (order_by_id (questions twelve)) =
       [format (trivia 11 ''q'' 1), format (trivia 12 ''q'' 1)]"
    by (simp only: e2)
  from t2 l2 have b: "int (length (paginate_questions (page_request (Some 2))
        (order_by_id (questions twelve)))) =
       min 10 (max 0 (int (length (order_by_id (questions twelve))) - (2 - 1) * 10))"
    by blast
  from t1 l1 have "paginate_questions (page_request None) (questions three) =
       take 10 (drop (nat ((1 - 1) * 10)) (map format (questions three)))"
    by blast
  then have c: "paginate_questions (page_request None) (questions three) =
       [format (trivia 1 ''What is the Title of the book?'' 2),
        format (trivia 2 ''Who discovered penicillin?'' 1),
        format (trivia 3 ''abc'' 1)]"
    by (simp only: e1)
  from t0 z have d: "paginate_questions (page_request (Some 0)) (order_by_id (questions twelve)) = []"
    by blast
  from h2 a b h1 c h0 d show ?thesis by blast
qed

lemma py_slice_Nil: "py_slice [] s e = []"
  by (simp add: py_slice_def Let_def)

lemma paginate_questions_Nil: "paginate_questions request [] = []"
  by (simp add: paginate_questions_py_slice py_slice_Nil)

lemma paginate_questions_beyond:
  assumes "1 \<le> args_get_page request"
    and "int (length selection) \<le> (args_get_page request - 1) * 10"
  shows "paginate_questions request selection = []"
  using assms by (simp add: paginate_questions_take_drop)

lemma paginate_questions_empty_iff:
  assumes "1 \<le> args_get_page request"
  shows "paginate_questions request selection = [] \<longleftrightarrow>
           int (length selection) \<le> (args_get_page request - 1) * 10"
  using assms by (auto simp add: paginate_questions_take_drop)

lemma length_order_by_id: "length (order_by_id qs) = length qs"
  by (simp add: order_by_id_def)

section \<open>Listing questions\<close>

text \<open>
  C6. Listing questions aborts with 404, answered by the envelope with the message
  "resource not found", exactly when the slice of the requested page is empty; for a page
  number from 1 on that is when the store has no more than \<open>(p-1)*10\<close> questions,
  whether or not it has any. Otherwise the response carries the slice and the number of
  all questions.
\<close>

theorem get_questions_not_found:
  "(get_questions request db = Inl NotFound \<longleftrightarrow>
      paginate_questions request (order_by_id (questions db)) = [])
   \<and> (paginate_questions request (order_by_id (questions db)) = [] \<longrightarrow>
        response (get_questions request db) =
          (JObj [(''success'', JBool False), (''error'', JInt 404),
                 (''message'', JStr ''resource not found'')], 404))
   \<and> (1 \<le> args_get_page request \<longrightarrow>
        (get_questions request db = Inl NotFound \<longleftrightarrow>
           int (length (questions db)) \<le> (args_get_page request - 1) * 10))
   \<and> (paginate_questions request (order_by_id (questions db)) \<noteq> [] \<longrightarrow>
        get_questions request db =
          Inr (JObj [(''success'', JBool True),
                     (''questions'', JList (paginate_questions request (order_by_id (questions db)))),
                     (''total_questions'', JInt (int (length (questions db))))]))"
proof (intro conjI impI)
  show iff: "get_questions request db = Inl NotFound \<longleftrightarrow>
      paginate_questions request (order_by_id (questions db)) = []"
    by (simp add: get_questions_def Let_def)
  show "response (get_questions request db) =
          (JObj [(''success'', JBool False), (''error'', JInt 404),
                 (''message'', JStr ''resource not found'')], 404)"
    if "paginate_questions request (order_by_id (questions db)) = []"
    using that by (simp add: get_questions_def not_found_def)
  show "get_questions request db = Inl NotFound \<longleftrightarrow>
           int (length (questions db)) \<le> (args_get_page request - 1) * 10"
    if "1 \<le> args_get_page request"
    using paginate_questions_empty_iff [OF that, of "order_by_id (questions db)"] iff
    by (simp add: length_order_by_id)
  show "get_questions request db =
          Inr (JObj [(''success'', JBool True),
                     (''questions'', JList (paginate_questions request (order_by_id (questions db)))),
                     (''total_questions'', JInt (int (length (questions db))))])"
    if "paginate_questions request (order_by_id (questions db)) \<noteq> []"
    using that by (simp add: get_questions_def Let_def)
qed

theorem get_questions_not_found_witness:
  "1 \<le> args_get_page (page_request (Some 9999))
   \<and> questions twelve \<noteq> []
   \<and> paginate_questions (page_request (Some 9999)) (order_by_id (questions twelve)) = []
   \<and> get_questions (page_request (Some 9999)) twelve = Inl NotFound
   \<and> response (get_questions (page_request (Some 9999)) twelve) =
          (JObj [(''success'', JBool False), (''error'', JInt 404),
                 (''message'', JStr ''resource not found'')], 404)
   \<and> paginate_questions (page_request None) (order_by_id (questions three)) \<noteq> []
   \<and> json_field ''total_questions'' (get_questions (page_request None) three) = Some (JInt 3)"
proof -
  have p: "1 \<le> args_get_page (page_request (Some 9999))"
    by (simp add: page_request_def args_get_page_def)
  have far: "int (length (questions twelve)) \<le> (args_get_page (page_request (Some 9999)) - 1) * 10"
    by (simp add: page_request_def args_get_page_def twelve_def)
  have some: "paginate_questions (page_request None) (order_by_id (questions three)) \<noteq> []"
    by (simp add: page_request_def args_get_page_def three_def order_by_id_def
        paginate_questions_py_slice py_slice_def trivia_def)
  note t1 = get_questions_not_found [of "page_request (Some 9999)" twelve]
  note t2 = get_questions_not_found [of "page_request None" three]
  from t1 p far have nf: "get_questions (page_request (Some 9999)) twelve = Inl NotFound"
    by blast
  with t1 have e: "paginate_questions (page_request (Some 9999)) (order_by_id (questions twelve)) = []"
    by blast
  from t2 some have "get_questions (page_request None) three =
          Inr (JObj [(''success'', JBool True),
                     (''questions'', JList (paginate_questions (page_request None) (order_by_id (questions three)))),
                     (''total_questions'', JInt (int (length (questions three))))])"
    by blast
  then have tot: "json_field ''total_questions'' (get_questions (page_request None) three) = Some (JInt 3)"
    by (simp add: three_def)
  have ne: "questions twelve \<noteq> []" by (simp add: twelve_def)
  from t1 e have "response (get_questions (page_request (Some 9999)) twelve) =
          (JObj [(''success'', JBool False), (''error'', JInt 404),
                 (''message'', JStr ''resource not found'')], 404)" by blast
  with p ne e nf some tot show ?thesis by blast
qed

section \<open>Error responses\<close>

text \<open>
  C9. Every abort is answered by the envelope of success false, the status and a message:
  400 with "bad request", 422 with "unprocessable", 404 with "resource not found",
  whichever handler aborted.
\<close>

theorem errorhandler_envelope:
  "response (Inl BadRequest) =
     (JObj [(''success'', JBool False), (''error'', JInt 400), (''message'', JStr ''bad request'')], 400)
   \<and> response (Inl Unprocessable) =
     (JObj [(''success'', JBool False), (''error'', JInt 422), (''message'', JStr ''unprocessable'')], 422)
   \<and> response (Inl NotFound) =
     (JObj [(''success'', JBool False), (''error'', JInt 404),
            (''message'', JStr ''resource not found'')], 404)
   \<and> (\<forall>e. \<exists>status message. response (Inl e) =
         (JObj [(''success'', JBool False), (''error'', JInt status),
                (''message'', JStr message)], status))"
proof (intro conjI allI)
  fix e
  show "\<exists>status message. response (Inl e) =
         (JObj [(''success'', JBool False), (''error'', JInt status),
                (''message'', JStr message)], status)"
    by (cases e) (simp_all add: not_found_def unprocessable_def bad_request_def)
qed (simp_all add: not_found_def unprocessable_def bad_request_def)

section \<open>Questions of a category\<close>

lemma filter_unique_key:
  "distinct (map f xs) \<Longrightarrow> x \<in> set xs \<Longrightarrow> filter (\<lambda>y. f y = f x) xs = [x]"
proof (induction xs)
  case Nil
  then show ?case by simp
next
  case (Cons a xs)
  show ?case
  proof (cases "a = x")
    case True
    have "f x \<notin> f ` set xs"
      using Cons.prems(1) True by simp
    then have "\<forall>y\<in>set xs. f y \<noteq> f x"
      by (metis imageI)
    then have "filter (\<lambda>y. f y = f x) xs = []"
      by (simp add: filter_empty_conv)
    with True show ?thesis by simp
  next
    case False
    with Cons.prems have "x \<in> set xs" and "f a \<noteq> f x" and "distinct (map f xs)"
      by auto
    with Cons.IH show ?thesis by simp
  qed
qed

text \<open>
  C10. When the category of the requested id exists, listing its questions succeeds
  whatever the page and however many questions the category has: the response carries the
  slice of the requested page, the number of questions of the category and the type of
  the category. A category without questions, or a page beyond its questions, gives the
  empty slice with success true, not 404.
\<close>

theorem get_questions_by_category_success:
  assumes "distinct (map c_id (categories db))"
    and "c \<in> set (categories db)"
  shows "get_questions_by_category (c_id c) request db =
           Inr (JObj [(''success'', JBool True),
                      (''questions'', JList (paginate_questions request
                          (filter (\<lambda>q. q_category q = c_id c) (questions db)))),
                      (''total_questions'',
                          JInt (int (length (filter (\<lambda>q. q_category q = c_id c) (questions db))))),
                      (''current_category'', JStr (c_type c))])
         \<and> (filter (\<lambda>q. q_category q = c_id c) (questions db) = [] \<longrightarrow>
              paginate_questions request (filter (\<lambda>q. q_category q = c_id c) (questions db)) = [])
         \<and> (1 \<le> args_get_page request
              \<and> int (length (filter (\<lambda>q. q_category q = c_id c) (questions db)))
                   \<le> (args_get_page request - 1) * 10 \<longrightarrow>
              paginate_questions request (filter (\<lambda>q. q_category q = c_id c) (questions db)) = [])"
proof -
  have "filter (\<lambda>y. c_id y = c_id c) (categories db) = [c]"
    using assms by (rule filter_unique_key)
  then have "get_questions_by_category (c_id c) request db =
           Inr (JObj [(''success'', JBool True),
                      (''questions'', JList (paginate_questions request
                          (filter (\<lambda>q. q_category q = c_id c) (questions db)))),
                      (''total_questions'',
                          JInt (int (length (filter (\<lambda>q. q_category q = c_id c) (questions db))))),
                      (''current_category'', JStr (c_type c))])"
    by (simp add: get_questions_by_category_def Let_def)
  then show ?thesis
    by (simp add: paginate_questions_Nil paginate_questions_beyond)
qed

theorem get_questions_by_category_success_witness:
  "distinct (map c_id (categories three))
   \<and> \<lparr>c_id = 3, c_type = ''History''\<rparr> \<in> set (categories three)
   \<and> \<lparr>c_id = 2, c_type = ''Art''\<rparr> \<in> set (categories three)
   \<and> get_questions_by_category 3 (page_request None) three =
           Inr (JObj [(''success'', JBool True), (''questions'', JList []),
                      (''total_questions'', JInt 0), (''current_category'', JStr ''History'')])
   \<and> get_questions_by_category 2 (page_request (Some 5)) three =
           Inr (JObj [(''success'', JBool True), (''questions'', JList []),
                      (''total_questions'', JInt 1), (''current_category'', JStr ''Art'')])"
proof -
  have d: "distinct (map c_id (categories three))"
    by (simp add: three_def example_categories_def)
  have h: "\<lparr>c_id = 3, c_type = ''History''\<rparr> \<in> set (categories three)"
    by (simp add: three_def example_categories_def)
  have a: "\<lparr>c_id = 2, c_type = ''Art''\<rparr> \<in> set (categories three)"
    by (simp add: three_def example_categories_def)
  have "get_questions_by_category 3 (page_request None) three =
           Inr (JObj [(''success'', JBool True), (''questions'', JList []),
                      (''total_questions'', JInt 0), (''current_category'', JStr ''History'')])"
    using get_questions_by_category_success [OF d h, of "page_request None"]
    by (simp add: three_def trivia_def)
  moreover have "get_questions_by_category 2 (page_request (Some 5)) three =
           Inr (JObj [(''success'', JBool True), (''questions'', JList []),
                      (''total_questions'', JInt 1), (''current_category'', JStr ''Art'')])"
    using get_questions_by_category_success [OF d a, of "page_request (Some 5)"]
    by (simp add: three_def trivia_def page_request_def args_get_page_def)
  ultimately show ?thesis using d h a by blast
qed

section \<open>Deleting a question\<close>

lemma length_filter_unique:
  assumes "filter P xs = [x]"
  shows "int (length (filter (\<lambda>y. \<not> P y) xs)) = int (length xs) - 1"
proof -
  have "length (filter P xs) + length (filter (\<lambda>y. \<not> P y) xs) = length xs"
    by (rule sum_length_filter_compl)
  with assms show ?thesis by simp
qed

lemma delete_question_found:
  assumes "filter (\<lambda>q. q_id q = question_id) (questions db) = [q]"
  shows "delete_question True question_id request db =
           (Inr (JObj [(''success'', JBool True),
                       (''deleted'', JInt question_id),
                       (''questions'', JList (paginate_questions request (order_by_id
                           (filter (\<lambda>r. q_id r \<noteq> question_id) (questions db))))),
                       (''total_questions'', JInt (int (length (questions db)) - 1))]),
            db\<lparr>questions := filter (\<lambda>r. q_id r \<noteq> question_id) (questions db)\<rparr>)"
proof -
  have "q \<in> set (filter (\<lambda>q. q_id q = question_id) (questions db))"
    using assms by simp
  then have id: "q_id q = question_id" by simp
  have len: "int (length (filter (\<lambda>r. q_id r \<noteq> question_id) (questions db))) =
               int (length (questions db)) - 1"
    using length_filter_unique [OF assms] by simp
  show ?thesis
    by (simp add: delete_question_def assms question_delete_def id Let_def len)
qed

lemma delete_question_missing:
  assumes "question_id \<notin> q_id ` set (questions db)"
  shows "delete_question commit_ok question_id request db = (Inl Unprocessable, db)"
proof -
  have "\<forall>q\<in>set (questions db). q_id q \<noteq> question_id"
    using assms by (metis imageI)
  then have "filter (\<lambda>q. q_id q = question_id) (questions db) = []"
    by (simp add: filter_empty_conv)
  then show ?thesis by (simp add: delete_question_def)
qed

lemma delete_question_error:
  assumes "fst (delete_question commit_ok question_id request db) = Inl e"
  shows "e = Unprocessable \<and> snd (delete_question commit_ok question_id request db) = db"
  using assms
  by (auto simp: delete_question_def question_delete_def Let_def
      split: list.splits option.splits if_splits)

lemma delete_question_refused:
  "delete_question False question_id request db = (Inl Unprocessable, db)"
  by (simp add: delete_question_def question_delete_def split: list.splits)

text \<open>
  C7. Deleting an id that no question has aborts with 422, the "unprocessable" envelope,
  not with 404, and so does every other failure of the lookup or of the delete: 422 is
  the only error of the handler, and the store is then left as it was. When the id is
  that of a question and the store commits, the response carries the requested id as
  \<^verbatim>\<open>deleted\<close> and the number of questions less one as \<^verbatim>\<open>total_questions\<close>.
\<close>

theorem delete_question_unprocessable:
  "(question_id \<notin> q_id ` set (questions db) \<longrightarrow>
      delete_question commit_ok question_id request db = (Inl Unprocessable, db)
      \<and> response (fst (delete_question commit_ok question_id request db)) =
          (JObj [(''success'', JBool False), (''error'', JInt 422),
                 (''message'', JStr ''unprocessable'')], 422))
   \<and> delete_question False question_id request db = (Inl Unprocessable, db)
   \<and> (\<forall>e. fst (delete_question commit_ok question_id request db) = Inl e \<longrightarrow>
         e = Unprocessable \<and> snd (delete_question commit_ok question_id request db) = db)
   \<and> (distinct (map q_id (questions db)) \<and> question_id \<in> q_id ` set (questions db) \<longrightarrow>
        json_field ''deleted'' (fst (delete_question True question_id request db)) =
          Some (JInt question_id)
        \<and> json_field ''total_questions'' (fst (delete_question True question_id request db)) =
          Some (JInt (int (length (questions db)) - 1))
        \<and> json_field ''total_questions'' (fst (delete_question True question_id request db)) =
          Some (JInt (int (length (questions (snd (delete_question True question_id request db))))))
        \<and> question_id \<notin> q_id ` set (questions (snd (delete_question True question_id request db))))"
proof (intro conjI impI allI)
  assume m: "question_id \<notin> q_id ` set (questions db)"
  show "delete_question commit_ok question_id request db = (Inl Unprocessable, db)"
    using m by (rule delete_question_missing)
  then show "response (fst (delete_question commit_ok question_id request db)) =
          (JObj [(''success'', JBool False), (''error'', JInt 422),
                 (''message'', JStr ''unprocessable'')], 422)"
    by (simp add: unprocessable_def)
next
  show "delete_question False question_id request db = (Inl Unprocessable, db)"
    by (rule delete_question_refused)
next
  fix e
  assume "fst (delete_question commit_ok question_id request db) = Inl e"
  then have "e = Unprocessable \<and> snd (delete_question commit_ok question_id request db) = db"
    by (rule delete_question_error)
  then show "e = Unprocessable"
    and "snd (delete_question commit_ok question_id request db) = db"
    by simp_all
next
  assume "distinct (map q_id (questions db)) \<and> question_id \<in> q_id ` set (questions db)"
  then obtain q where d: "distinct (map q_id (questions db))"
    and q: "q \<in> set (questions db)" and i: "q_id q = question_id"
    by auto
  have "filter (\<lambda>y. q_id y = q_id q) (questions db) = [q]"
    using d q by (rule filter_unique_key)
  then have f: "filter (\<lambda>y. q_id y = question_id) (questions db) = [q]"
    using i by simp
  note r = delete_question_found [OF f, of request]
  show "json_field ''deleted'' (fst (delete_question True question_id request db)) =
          Some (JInt question_id)"
    by (simp add: r)
  show "json_field ''total_questions'' (fst (delete_question True question_id request db)) =
          Some (JInt (int (length (questions db)) - 1))"
    by (simp add: r)
  show "json_field ''total_questions'' (fst (delete_question True question_id request db)) =
          Some (JInt (int (length (questions (snd (delete_question True question_id request db))))))"
    using length_filter_unique [OF f] by (simp add: r)
  show "question_id \<notin> q_id ` set (questions (snd (delete_question True question_id request db)))"
    by (auto simp add: r)
qed

theorem delete_question_unprocessable_witness:
  "99 \<notin> q_id ` set (questions three)
   \<and> delete_question True 99 (page_request None) three = (Inl Unprocessable, three)
   \<and> response (fst (delete_question True 99 (page_request None) three)) =
          (JObj [(''success'', JBool False), (''error'', JInt 422),
                 (''message'', JStr ''unprocessable'')], 422)
   \<and> distinct (map q_id (questions three)) \<and> 2 \<in> q_id ` set (questions three)
   \<and> json_field ''deleted'' (fst (delete_question True 2 (page_request None) three)) = Some (JInt 2)
   \<and> json_field ''total_questions'' (fst (delete_question True 2 (page_request None) three)) =
        Some (JInt 2)"
proof -
  have m: "99 \<notin> q_id ` set (questions three)"
    by (simp add: three_def trivia_def)
  have d: "distinct (map q_id (questions three))"
    by (simp add: three_def trivia_def)
  have i: "2 \<in> q_id ` set (questions three)"
    by (simp add: three_def trivia_def)
  have l: "int (length (questions three)) - 1 = 2"
    by (simp add: three_def)
  note t1 = delete_question_unprocessable [of 99 three True "page_request None"]
  note t2 = delete_question_unprocessable [of 2 three True "page_request None"]
  from t1 m have a: "delete_question True 99 (page_request None) three = (Inl Unprocessable, three)"
    and b: "response (fst (delete_question True 99 (page_request None) three)) =
          (JObj [(''success'', JBool False), (''error'', JInt 422),
                 (''message'', JStr ''unprocessable'')], 422)"
    by blast+
  from t2 d i have c: "json_field ''deleted'' (fst (delete_question True 2 (page_request None) three)) = Some (JInt 2)"
    and e: "json_field ''total_questions'' (fst (delete_question True 2 (page_request None) three)) =
        Some (JInt (int (length (questions three)) - 1))"
    by blast+
  from e l have "json_field ''total_questions'' (fst (delete_question True 2 (page_request None) three)) =
        Some (JInt 2)" by simp
  with m a b d i c show ?thesis by blast
qed

section \<open>Creating a question\<close>

lemma create_question_complete:
  assumes "b_question (get_json request) = Some qu" and "b_answer (get_json request) = Some an"
    and "b_category (get_json request) = Some ca" and "b_difficulty (get_json request) = Some di"
  shows "create_question True request db =
           (Inr (JObj [(''success'', JBool True),
                       (''created'', JInt (next_id db)),
                       (''questions'', JList (paginate_questions request (order_by_id
                           (questions db @ [\<lparr>q_id = next_id db, q_question = qu, q_answer = an,
                                              q_category = ca, q_difficulty = di\<rparr>])))),
                       (''total_questions'', JInt (int (length (questions db)) + 1))]),
            db\<lparr>questions := questions db @ [\<lparr>q_id = next_id db, q_question = qu, q_answer = an,
                                               q_category = ca, q_difficulty = di\<rparr>],
               next_id := next_id db + 1\<rparr>)"
  using assms by (simp add: create_question_def question_insert_def Let_def)

lemma create_question_error:
  "fst (create_question commit_ok request db) = Inl e \<Longrightarrow> e = Unprocessable"
  by (auto simp: create_question_def question_insert_def Let_def
      split: option.splits if_splits prod.splits)

lemma create_question_aborts_iff:
  "fst (create_question commit_ok request db) = Inl Unprocessable \<longleftrightarrow>
     b_question (get_json request) = None \<or> b_answer (get_json request) = None
     \<or> b_category (get_json request) = None \<or> b_difficulty (get_json request) = None
     \<or> \<not> commit_ok"
  by (auto simp: create_question_def question_insert_def Let_def
      split: option.splits if_splits prod.splits)

text \<open>
  C8. Creating a question aborts with 422, the "unprocessable" envelope, exactly when one
  of the keys \<^verbatim>\<open>question\<close>, \<^verbatim>\<open>answer\<close>, \<^verbatim>\<open>category\<close>, \<^verbatim>\<open>difficulty\<close> is absent from the
  body or the store refuses the insert, and it has no other error. With the four keys and
  an insert that succeeds, \<^verbatim>\<open>created\<close> is the id of the question that the store has
  gained.
\<close>

theorem create_question_unprocessable:
  "(fst (create_question commit_ok request db) = Inl Unprocessable \<longleftrightarrow>
      b_question (get_json request) = None \<or> b_answer (get_json request) = None
      \<or> b_category (get_json request) = None \<or> b_difficulty (get_json request) = None
      \<or> \<not> commit_ok)
   \<and> (\<forall>e. fst (create_question commit_ok request db) = Inl e \<longrightarrow>
         e = Unprocessable
         \<and> response (fst (create_question commit_ok request db)) =
             (JObj [(''success'', JBool False), (''error'', JInt 422),
                    (''message'', JStr ''unprocessable'')], 422))
   \<and> (b_question (get_json request) = Some qu \<and> b_answer (get_json request) = Some an
       \<and> b_category (get_json request) = Some ca \<and> b_difficulty (get_json request) = Some di \<longrightarrow>
        json_field ''created'' (fst (create_question True request db)) = Some (JInt (next_id db))
        \<and> questions (snd (create_question True request db)) =
            questions db @ [\<lparr>q_id = next_id db, q_question = qu, q_answer = an,
                              q_category = ca, q_difficulty = di\<rparr>])"
proof (intro conjI impI allI)
  show "fst (create_question commit_ok request db) = Inl Unprocessable \<longleftrightarrow>
      b_question (get_json request) = None \<or> b_answer (get_json request) = None
      \<or> b_category (get_json request) = None \<or> b_difficulty (get_json request) = None
      \<or> \<not> commit_ok"
    by (rule create_question_aborts_iff)
next
  fix e
  assume a: "fst (create_question commit_ok request db) = Inl e"
  then show e: "e = Unprocessable"
    by (rule create_question_error)
  show "response (fst (create_question commit_ok request db)) =
             (JObj [(''success'', JBool False), (''error'', JInt 422),
                    (''message'', JStr ''unprocessable'')], 422)"
    using a e by (simp add: unprocessable_def)
next
  assume "b_question (get_json request) = Some qu \<and> b_answer (get_json request) = Some an
       \<and> b_category (get_json request) = Some ca \<and> b_difficulty (get_json request) = Some di"
  then have r: "create_question True request db =
           (Inr (JObj [(''success'', JBool True),
                       (''created'', JInt (next_id db)),
                       (''questions'', JList (paginate_questions request (order_by_id
                           (questions db @ [\<lparr>q_id = next_id db, q_question = qu, q_answer = an,
                                              q_category = ca, q_difficulty = di\<rparr>])))),
                       (''total_questions'', JInt (int (length (questions db)) + 1))]),
            db\<lparr>questions := questions db @ [\<lparr>q_id = next_id db, q_question = qu, q_answer = an,
                                               q_category = ca, q_difficulty = di\<rparr>],
               next_id := next_id db + 1\<rparr>)"
    by (simp add: create_question_complete)
  show "json_field ''created'' (fst (create_question True request db)) = Some (JInt (next_id db))"
    by (simp add: r)
  show "questions (snd (create_question True request db)) =
            questions db @ [\<lparr>q_id = next_id db, q_question = qu, q_answer = an,
                              q_category = ca, q_difficulty = di\<rparr>]"
    by (simp add: r)
qed

theorem create_question_unprocessable_witness:
  "b_category (get_json no_category_request) = None
   \<and> fst (create_question True no_category_request three) = Inl Unprocessable
   \<and> response (fst (create_question True no_category_request three)) =
             (JObj [(''success'', JBool False), (''error'', JInt 422),
                    (''message'', JStr ''unprocessable'')], 422)
   \<and> b_question (get_json (create_request None)) = Some ''Q1''
   \<and> b_answer (get_json (create_request None)) = Some ''A1''
   \<and> b_category (get_json (create_request None)) = Some 1
   \<and> b_difficulty (get_json (create_request None)) = Some 3
   \<and> json_field ''created'' (fst (create_question True (create_request None) three)) = Some (JInt 4)
   \<and> fst (create_question True (create_request None) three) \<noteq> Inl Unprocessable"
proof -
  have n: "b_category (get_json no_category_request) = None"
    by (simp add: no_category_request_def)
  have b: "b_question (get_json (create_request None)) = Some ''Q1''
      \<and> b_answer (get_json (create_request None)) = Some ''A1''
      \<and> b_category (get_json (create_request None)) = Some 1
      \<and> b_difficulty (get_json (create_request None)) = Some 3"
    by (simp add: create_request_def new_question_body_def no_body_def)
  note t1 = create_question_unprocessable [of True no_category_request three]
  note t2 = create_question_unprocessable [of True "create_request None" three "''Q1''" "''A1''" 1 3]
  from t1 n have u: "fst (create_question True no_category_request three) = Inl Unprocessable"
    by blast
  with t1 have v: "response (fst (create_question True no_category_request three)) =
             (JObj [(''success'', JBool False), (''error'', JInt 422),
                    (''message'', JStr ''unprocessable'')], 422)"
    by blast
  from t2 b have "json_field ''created'' (fst (create_question True (create_request None) three)) =
      Some (JInt (next_id three))"
    by blast
  then have c: "json_field ''created'' (fst (create_question True (create_request None) three)) =
      Some (JInt 4)"
    by (simp add: three_def)
  from t2 b have w: "fst (create_question True (create_request None) three) \<noteq> Inl Unprocessable"
    by simp
  from n u v b c w show ?thesis by blast
qed

section \<open>The page of the responses to delete and create\<close>










section \<open>Searching questions\<close>

lemma starts_with_iff: "starts_with s t \<longleftrightarrow> (\<exists>post. s = t @ post)"
  by (induction s t rule: starts_with.induct) auto

lemma contains_iff: "contains s t \<longleftrightarrow> (\<exists>pre post. s = pre @ t @ post)"
proof (induction s)
  case Nil
  then show ?case by auto
next
  case (Cons a s)
  have "(\<exists>pre post. a # s = pre @ t @ post) \<longleftrightarrow>
          (\<exists>post. a # s = t @ post) \<or> (\<exists>pre post. s = pre @ t @ post)"
    by (auto simp: Cons_eq_append_conv)
  then show ?case
    using Cons.IH by (simp add: starts_with_iff)
qed

lemma like_percent: "like s [CHR ''%'']"
  by (induction s) auto

lemma like_prefix:
  assumes "CHR ''%'' \<notin> set p" and "CHR ''_'' \<notin> set p" and "CHR 0x5C \<notin> set p"
  shows "like s (p @ [CHR ''%'']) \<longleftrightarrow> starts_with s p"
  using assms
proof (induction s p rule: starts_with.induct)
  case (1 s)
  then show ?case by (simp add: like_percent)
next
  case (2 b t)
  then show ?case by auto
next
  case (3 a s b t)
  then show ?case by auto
qed

lemma like_any_then:
  "like s (CHR ''%'' # ps) \<longleftrightarrow> (\<exists>pre post. s = pre @ post \<and> like post ps)"
proof (induction s)
  case Nil
  then show ?case by (cases ps) auto
next
  case (Cons c s)
  have "(\<exists>pre post. c # s = pre @ post \<and> like post ps) \<longleftrightarrow>
          like (c # s) ps \<or> (\<exists>pre post. s = pre @ post \<and> like post ps)"
    by (auto simp: Cons_eq_append_conv)
  then show ?case
    using Cons.IH by (cases ps) auto
qed

lemma like_contains:
  assumes "CHR ''%'' \<notin> set t" and "CHR ''_'' \<notin> set t" and "CHR 0x5C \<notin> set t"
  shows "like s (CHR ''%'' # t @ [CHR ''%'']) \<longleftrightarrow> contains s t"
  unfolding like_any_then like_prefix [OF assms] contains_iff starts_with_iff
  by auto

lemma of_char_lower:
  "(of_char (lower c) :: nat) =
     (if (65 \<le> (of_char c :: nat) \<and> (of_char c :: nat) \<le> 90)
         \<or> (192 \<le> (of_char c :: nat) \<and> (of_char c :: nat) \<le> 222 \<and> (of_char c :: nat) \<noteq> 215)
      then of_char c + 32 else of_char c)"
  by (simp add: lower_def Let_def)

lemma lower_plain:
  assumes "(of_char k :: nat) < 65 \<or> (90 < (of_char k :: nat) \<and> (of_char k :: nat) < 97)"
  shows "lower c = k \<longleftrightarrow> c = k"
proof
  assume "lower c = k"
  then have "(of_char (lower c) :: nat) = of_char k" by simp
  then have "(of_char c :: nat) = of_char k"
    using assms by (simp add: of_char_lower split: if_splits) linarith
  then show "c = k" by (simp only: of_char_eq_iff)
next
  assume "c = k"
  then show "lower c = k" using assms by (auto simp add: lower_def Let_def)
qed

lemma lower_percent: "lower c = CHR ''%'' \<longleftrightarrow> c = CHR ''%''"
  by (rule lower_plain) simp

lemma lower_underscore: "lower c = CHR ''_'' \<longleftrightarrow> c = CHR ''_''"
  by (rule lower_plain) simp

lemma lower_backslash: "lower c = CHR 0x5C \<longleftrightarrow> c = CHR 0x5C"
  by (rule lower_plain) simp

lemma lower_free:
  assumes "lower k = k" and "\<And>c. lower c = k \<longleftrightarrow> c = k" and "k \<notin> set t"
  shows "k \<notin> set (map lower t)"
proof
  assume "k \<in> set (map lower t)"
  then obtain x where "x \<in> set t" and "lower x = k" by auto
  then show False using assms by simp
qed

lemma ilike_search_pattern:
  assumes "CHR ''%'' \<notin> set t" and "CHR ''_'' \<notin> set t" and "CHR 0x5C \<notin> set t"
  shows "ilike s (search_pattern (Some t)) \<longleftrightarrow> spec_contains_ci s t"
proof -
  have "CHR ''%'' \<notin> set (map lower t)"
    using assms(1) by (intro lower_free) (simp_all add: lower_percent)
  moreover have "CHR ''_'' \<notin> set (map lower t)"
    using assms(2) by (intro lower_free) (simp_all add: lower_underscore)
  moreover have "CHR 0x5C \<notin> set (map lower t)"
    using assms(3) by (intro lower_free) (simp_all add: lower_backslash)
  ultimately have "like (map lower s) (CHR ''%'' # map lower t @ [CHR ''%'']) \<longleftrightarrow>
               contains (map lower s) (map lower t)"
    by (rule like_contains)
  moreover have "lower CHR ''%'' = CHR ''%''"
    by (simp add: lower_percent)
  ultimately show ?thesis
    by (simp add: ilike_def search_pattern_def spec_contains_ci_def)
qed

lemma ends_in_escape_percent: "\<not> ends_in_escape (t @ [CHR ''%''])"
  by (induction t rule: ends_in_escape.induct) auto

lemma search_pattern_escapes: "\<not> ends_in_escape (map lower (search_pattern search_term))"
proof -
  obtain t where "map lower (search_pattern search_term) = CHR ''%'' # t @ [CHR ''%'']"
    by (cases search_term) (simp_all add: search_pattern_def lower_percent)
  moreover have "\<not> ends_in_escape (CHR ''%'' # t @ [CHR ''%''])"
    using ends_in_escape_percent [of t] by (cases t) simp_all
  ultimately show ?thesis by simp
qed

text \<open>
  C3. A search whose body has no \<^verbatim>\<open>searchTerm\<close> does not match every question: the
  pattern is then \<^verbatim>\<open>%None%\<close>, so the search matches the questions whose text contains
  "none". Of three questions without that word it finds nothing and aborts with 404; of
  four questions, one of them with the word, it returns that one.
\<close>

theorem search_questions_absent_term:
  "b_searchTerm (get_json (search_request None)) = None
   \<and> search_pattern (b_searchTerm (get_json (search_request None))) = ''%None%''
   \<and> search_questions (search_request None) three = Inl NotFound
   \<and> search_questions (search_request None) four =
       Inr (JObj [(''success'', JBool True),
                  (''questions'', JList [format (trivia 4 ''Are none of these right?'' 2)]),
                  (''total_questions'', JInt 4)])"
  by code_simp

text \<open>
  Where the search is the substring search that the source's comment announces: for a term
  without the pattern characters \<^verbatim>\<open>%\<close>, \<^verbatim>\<open>_\<close> and backslash, the matches are the questions
  whose text contains the term, letter case apart, in the order of the store.
\<close>

lemma search_questions_plain_term:
  assumes "b_searchTerm (get_json request) = Some t"
    and "CHR ''%'' \<notin> set t" and "CHR ''_'' \<notin> set t" and "CHR 0x5C \<notin> set t"
  shows "search_questions request db =
           (if filter (\<lambda>q. spec_contains_ci (q_question q) t) (questions db) = []
            then Inl NotFound
            else Inr (JObj [(''success'', JBool True),
                            (''questions'', JList (paginate_questions request
                               (filter (\<lambda>q. spec_contains_ci (q_question q) t) (questions db)))),
                            (''total_questions'', JInt (int (length (questions db))))]))"
proof -
  have "filter (\<lambda>q. ilike (q_question q) (search_pattern (b_searchTerm (get_json request))))
           (questions db) =
         filter (\<lambda>q. spec_contains_ci (q_question q) t) (questions db)"
    using assms by (simp add: ilike_search_pattern)
  then show ?thesis
    unfolding search_questions_def Let_def by simp
qed

text \<open>
  C4. The matches of a search are not exactly the questions whose text contains the term.
  The term goes into the pattern as it is, so its characters \<^verbatim>\<open>%\<close>, \<^verbatim>\<open>_\<close> and backslash
  act as pattern characters: the term \<^verbatim>\<open>_\<close> matches all three questions of a store in
  which no text has an underscore, and the term of b, backslash, c matches the text "abc",
  which has no backslash. A term of letters matches as the claim says, "tItLe" finds the
  question with "Title", and \<^verbatim>\<open>total_questions\<close> is the number of all questions of the
  store, here 3 for one match.
\<close>

theorem search_questions_pattern_characters:
  "search_questions (search_request (Some ''_'')) three =
       Inr (JObj [(''success'', JBool True),
                  (''questions'', JList [format (trivia 1 ''What is the Title of the book?'' 2),
                                         format (trivia 2 ''Who discovered penicillin?'' 1),
                                         format (trivia 3 ''abc'' 1)]),
                  (''total_questions'', JInt 3)])
   \<and> \<not> spec_contains_ci ''What is the Title of the book?'' ''_''
   \<and> \<not> spec_contains_ci ''Who discovered penicillin?'' ''_''
   \<and> \<not> spec_contains_ci ''abc'' ''_''
   \<and> search_questions (search_request (Some [CHR ''b'', CHR 0x5C, CHR ''c''])) three =
       Inr (JObj [(''success'', JBool True),
                  (''questions'', JList [format (trivia 3 ''abc'' 1)]),
                  (''total_questions'', JInt 3)])
   \<and> \<not> spec_contains_ci ''abc'' [CHR ''b'', CHR 0x5C, CHR ''c'']
   \<and> search_questions (search_request (Some ''tItLe'')) three =
       Inr (JObj [(''success'', JBool True),
                  (''questions'', JList [format (trivia 1 ''What is the Title of the book?'' 2)]),
                  (''total_questions'', JInt 3)])
   \<and> spec_contains_ci ''What is the Title of the book?'' ''tItLe''"
  by code_simp

section \<open>Playing the quiz\<close>

lemma quiz_candidates_set:
  "set (quiz_candidates quiz_category previous_questions db) =
     {q \<in> set (questions db).
        (qc_id quiz_category = 0 \<or> q_category q = qc_id quiz_category)
        \<and> q_id q \<notin> set previous_questions}"
  by (auto simp: quiz_candidates_def)

lemma quiz_candidates_distinct:
  assumes "distinct (map q_id (questions db))"
  shows "distinct (map q_id (quiz_candidates quiz_category previous_questions db))"
  using assms by (simp add: quiz_candidates_def distinct_map_filter)

lemma play_quiz_response:
  assumes "b_quiz_category (get_json request) = Some quiz_category"
    and "b_previous_questions (get_json request) = Some previous_questions"
    and "candidates = quiz_candidates quiz_category previous_questions db"
  shows "play_quiz randrange request db =
           Inr (JObj [(''success'', JBool True),
                      (''question'',
                         (if candidates = [] then JNull
                          else format (candidates ! randrange (length candidates))))])"
  using assms by (simp add: play_quiz_def Let_def)

text \<open>
  C5. For a quiz request with a category and the previous questions, the candidates are
  the questions whose id is not among the previous ones, all of them when the category id
  is 0 and those of the category otherwise. Without candidates the response is success
  with the question null, and no error. With candidates the response carries the
  candidate at the index that \<^verbatim>\<open>random.randrange\<close> draws below their number: a question of
  the candidate set, so never a previous one; every index is drawn by some outcome of the
  generator, and the candidates of a store with unique ids are pairwise different, so a
  uniform draw of the index is a uniform choice of the candidate.
\<close>

theorem play_quiz_candidate:
  assumes "b_quiz_category (get_json request) = Some quiz_category"
    and "b_previous_questions (get_json request) = Some previous_questions"
    and "candidates = quiz_candidates quiz_category previous_questions db"
    and "candidates \<noteq> [] \<longrightarrow> randrange (length candidates) < length candidates"
  shows "set candidates =
           {q \<in> set (questions db).
              (qc_id quiz_category = 0 \<or> q_category q = qc_id quiz_category)
              \<and> q_id q \<notin> set previous_questions}
       \<and> (candidates = [] \<longrightarrow>
            play_quiz randrange request db =
              Inr (JObj [(''success'', JBool True), (''question'', JNull)]))
       \<and> (candidates \<noteq> [] \<longrightarrow>
            play_quiz randrange request db =
              Inr (JObj [(''success'', JBool True),
                         (''question'', format (candidates ! randrange (length candidates)))])
            \<and> candidates ! randrange (length candidates) \<in> set candidates
            \<and> q_id (candidates ! randrange (length candidates)) \<notin> set previous_questions)
       \<and> (\<forall>i < length candidates.
            play_quiz (\<lambda>n. i) request db =
              Inr (JObj [(''success'', JBool True), (''question'', format (candidates ! i))]))
       \<and> (distinct (map q_id (questions db)) \<longrightarrow> distinct (map q_id candidates))"
proof (intro conjI impI allI)
  note p = play_quiz_response [OF assms(1) assms(2) assms(3)]
  show s: "set candidates =
           {q \<in> set (questions db).
              (qc_id quiz_category = 0 \<or> q_category q = qc_id quiz_category)
              \<and> q_id q \<notin> set previous_questions}"
    unfolding assms(3) by (rule quiz_candidates_set)
  show "play_quiz randrange request db =
              Inr (JObj [(''success'', JBool True), (''question'', JNull)])"
    if "candidates = []"
    using that by (simp add: p)
  show "play_quiz randrange request db =
              Inr (JObj [(''success'', JBool True),
                         (''question'', format (candidates ! randrange (length candidates)))])"
    if "candidates \<noteq> []"
    using that by (simp add: p)
  show m: "candidates ! randrange (length candidates) \<in> set candidates"
    if "candidates \<noteq> []"
    using that assms(4) by simp
  show "q_id (candidates ! randrange (length candidates)) \<notin> set previous_questions"
    if "candidates \<noteq> []"
    using m [OF that] s by simp
  show "play_quiz (\<lambda>n. i) request db =
              Inr (JObj [(''success'', JBool True), (''question'', format (candidates ! i))])"
    if "i < length candidates" for i
    using that by (auto simp: p)
  show "distinct (map q_id candidates)" if "distinct (map q_id (questions db))"
    unfolding assms(3) using that by (rule quiz_candidates_distinct)
qed

theorem play_quiz_candidate_witness:
  "b_quiz_category (get_json (quiz_request 0 [1, 2, 3])) = Some \<lparr>qc_id = 0\<rparr>
   \<and> b_previous_questions (get_json (quiz_request 0 [1, 2, 3])) = Some [1, 2, 3]
   \<and> quiz_candidates \<lparr>qc_id = 0\<rparr> [1, 2, 3] three = []
   \<and> play_quiz draw_first (quiz_request 0 [1, 2, 3]) three =
       Inr (JObj [(''success'', JBool True), (''question'', JNull)])
   \<and> b_quiz_category (get_json (quiz_request 1 [2])) = Some \<lparr>qc_id = 1\<rparr>
   \<and> b_previous_questions (get_json (quiz_request 1 [2])) = Some [2]
   \<and> quiz_candidates \<lparr>qc_id = 1\<rparr> [2] three = [trivia 3 ''abc'' 1]
   \<and> draw_first (length [trivia 3 ''abc'' 1]) < length [trivia 3 ''abc'' 1]
   \<and> play_quiz draw_first (quiz_request 1 [2]) three =
       Inr (JObj [(''success'', JBool True), (''question'', format (trivia 3 ''abc'' 1))])
   \<and> q_id (trivia 3 ''abc'' 1) \<notin> set [2]
   \<and> distinct (map q_id (questions three))"
proof -
  have a1: "b_quiz_category (get_json (quiz_request 0 [1, 2, 3])) = Some \<lparr>qc_id = 0\<rparr>"
    and a2: "b_previous_questions (get_json (quiz_request 0 [1, 2, 3])) = Some [1, 2, 3]"
    by (simp_all add: quiz_request_def)
  have a3: "[] = quiz_candidates \<lparr>qc_id = 0\<rparr> [1, 2, 3] three"
    by (simp add: quiz_candidates_def three_def trivia_def)
  have a4: "[] \<noteq> [] \<longrightarrow> draw_first (length ([] :: question list)) < length ([] :: question list)"
    by simp
  have b1: "b_quiz_category (get_json (quiz_request 1 [2])) = Some \<lparr>qc_id = 1\<rparr>"
    and b2: "b_previous_questions (get_json (quiz_request 1 [2])) = Some [2]"
    by (simp_all add: quiz_request_def)
  have b3: "[trivia 3 ''abc'' 1] = quiz_candidates \<lparr>qc_id = 1\<rparr> [2] three"
    by (simp add: quiz_candidates_def three_def trivia_def)
  have b5: "draw_first (length [trivia 3 ''abc'' 1]) < length [trivia 3 ''abc'' 1]"
    by (simp add: draw_first_def)
  then have b4: "[trivia 3 ''abc'' 1] \<noteq> [] \<longrightarrow>
      draw_first (length [trivia 3 ''abc'' 1]) < length [trivia 3 ''abc'' 1]"
    by simp
  have d: "distinct (map q_id (questions three))"
    by (simp add: three_def trivia_def)
  from play_quiz_candidate [where randrange = draw_first and candidates = "[]", OF a1 a2 a3 a4]
  have n: "play_quiz draw_first (quiz_request 0 [1, 2, 3]) three =
       Inr (JObj [(''success'', JBool True), (''question'', JNull)])"
    by simp
  from play_quiz_candidate [where randrange = draw_first
      and candidates = "[trivia 3 ''abc'' 1]", OF b1 b2 b3 b4]
  have q: "play_quiz draw_first (quiz_request 1 [2]) three =
       Inr (JObj [(''success'', JBool True), (''question'', format (trivia 3 ''abc'' 1))])"
    and r: "q_id (trivia 3 ''abc'' 1) \<notin> set [2]"
    by (simp_all add: draw_first_def)
  from a1 a2 a3 [symmetric] n b1 b2 b3 [symmetric] b5 q r d show ?thesis
    by blast
qed

end
